theory Spec2Isabelle
  imports Complex_Main "HOL-Library.Sublist"
begin

section \<open>Python values, exceptions and strings\<close>

text \<open>
  The scraper of \<^verbatim>\<open>src/server/scraper/http_scraper.py\<close> works on values decoded by
  \<^verbatim>\<open>json.loads\<close> and produces values encoded by \<^verbatim>\<open>json.dumps\<close>. They are modelled
  by one datatype of Python values. A \<^verbatim>\<open>dict\<close> is an association list in insertion
  order (keys of a decoded JSON object are strings); a lookup reads the first entry of a
  key. A \<^verbatim>\<open>str\<close> is a \<open>string\<close> whose characters are read as the code points below 256,
  so \<open>length\<close> is Python's \<^verbatim>\<open>len\<close> on such text.
\<close>

datatype pyfloat = Finite rat | PosInf | NegInf | NaN

datatype pyval =
    PNone
  | PBool bool
  | PInt int
  | PFloat pyfloat
  | PStr string
  | PList "pyval list"
  | PDict "(string \<times> pyval) list"

type_synonym pydict = "(string \<times> pyval) list"

text \<open>
  The exceptions the handlers of the source tell apart, each with \<^verbatim>\<open>str(e)\<close>:
  \<^verbatim>\<open>requests.Timeout\<close>, any other \<^verbatim>\<open>requests.RequestException\<close>,
  \<^verbatim>\<open>json.JSONDecodeError\<close>, \<^verbatim>\<open>KeyError\<close>, and every other \<^verbatim>\<open>Exception\<close>.
\<close>

datatype exn =
    Timeout string
  | RequestException string
  | JSONDecodeError string
  | KeyError string
  | OtherException string

fun exn_str :: "exn \<Rightarrow> string" where
  "exn_str (Timeout m) = m"
| "exn_str (RequestException m) = m"
| "exn_str (JSONDecodeError m) = m"
| "exn_str (KeyError m) = m"
| "exn_str (OtherException m) = m"

text \<open>Truth value of a Python object, as \<^verbatim>\<open>if x\<close>, \<^verbatim>\<open>not x\<close> and \<^verbatim>\<open>x or y\<close> test it.\<close>

fun truthy :: "pyval \<Rightarrow> bool" where
  "truthy PNone = False"
| "truthy (PBool b) = b"
| "truthy (PInt i) = (i \<noteq> 0)"
| "truthy (PFloat f) = (f \<noteq> Finite 0)"
| "truthy (PStr s) = (s \<noteq> [])"
| "truthy (PList xs) = (xs \<noteq> [])"
| "truthy (PDict kvs) = (kvs \<noteq> [])"

definition py_or :: "pyval \<Rightarrow> pyval \<Rightarrow> pyval" where
  "py_or a b = (if truthy a then a else b)"

text \<open>\<^verbatim>\<open>d.get(k)\<close> and \<^verbatim>\<open>d.get(k, default)\<close> on a dict.\<close>

definition dict_get :: "pydict \<Rightarrow> string \<Rightarrow> pyval \<Rightarrow> pyval" where
  "dict_get d k dflt = (case map_of d k of None \<Rightarrow> dflt | Some v \<Rightarrow> v)"

text \<open>\<^verbatim>\<open>d[k] = v\<close>: a present key keeps its position, a new key goes last.\<close>

fun dict_set :: "pydict \<Rightarrow> string \<Rightarrow> pyval \<Rightarrow> pydict" where
  "dict_set [] k v = [(k, v)]"
| "dict_set ((k', v') # d) k v = (if k' = k then (k, v) # d else (k', v') # dict_set d k v)"

text \<open>\<^verbatim>\<open>str.lower\<close> on code points below 256: the ASCII and the Latin-1 capitals.\<close>

definition lower_char :: "char \<Rightarrow> char" where
  "lower_char c =
     (let n = (of_char c :: nat)
      in if (65 \<le> n \<and> n \<le> 90) \<or> (192 \<le> n \<and> n \<le> 222 \<and> n \<noteq> 215)
         then char_of (n + 32) else c)"

definition lower :: "string \<Rightarrow> string" where
  "lower s = map lower_char s"

text \<open>\<^verbatim>\<open>str.isspace\<close> of one code point below 256, and \<^verbatim>\<open>str.strip()\<close>.\<close>

definition is_space :: "char \<Rightarrow> bool" where
  "is_space c =
     (let n = (of_char c :: nat)
      in (9 \<le> n \<and> n \<le> 13) \<or> (28 \<le> n \<and> n \<le> 32) \<or> n = 133 \<or> n = 160)"

definition strip :: "string \<Rightarrow> string" where
  "strip s = rev (dropWhile is_space (rev (dropWhile is_space s)))"

text \<open>\<^verbatim>\<open>needle in haystack\<close> on strings: a scan for the first position where it starts.\<close>

fun py_in :: "string \<Rightarrow> string \<Rightarrow> bool" where
  "py_in needle [] = (needle = [])"
| "py_in needle (c # cs) = (if prefix needle (c # cs) then True else py_in needle cs)"

text \<open>\<^verbatim>\<open>str(n)\<close> of an int, in decimal.\<close>

fun digits :: "nat \<Rightarrow> string" where
  "digits n = (if n < 10 then [char_of (48 + n)] else digits (n div 10) @ [char_of (48 + n mod 10)])"

definition str_int :: "int \<Rightarrow> string" where
  "str_int i = (if i < 0 then CHR ''-'' # digits (nat (- i)) else digits (nat i))"

section \<open>Block detector\<close>

definition bot_indicators :: "string list" where
  "bot_indicators =
     [''captcha'', ''cloudflare'', ''access denied'', ''robot check'',
      ''please verify you are human'', ''enable javascript'', ''browser check'',
      ''ddos protection'']"

text \<open>The \<^verbatim>\<open>for indicator in bot_indicators\<close> loop, returning at the first hit.\<close>

fun indicator_loop :: "string list \<Rightarrow> string \<Rightarrow> bool" where
  "indicator_loop [] text_lower = False"
| "indicator_loop (indicator # rest) text_lower =
     (if py_in indicator text_lower then True else indicator_loop rest text_lower)"

text \<open>\<^verbatim>\<open>HttpScraper._is_bot_blocked\<close>, on \<^verbatim>\<open>response.text\<close>.\<close>

definition is_bot_blocked :: "string \<Rightarrow> bool" where
  "is_bot_blocked text =
     (let text_lower = lower text
      in if indicator_loop bot_indicators text_lower then True
         else if length text < 500 then True
         else False)"

section \<open>External collaborators\<close>

text \<open>
  The HTTP session, the HTML parser and the JSON decoder are libraries; the scraper is
  modelled over any behaviour of them. \<open>'s\<close> is the state of \<^verbatim>\<open>self.session\<close>, \<open>'d\<close> a
  parsed document, \<open>'e\<close> an element of one.
  \<^item> \<open>fetch\<close>: \<^verbatim>\<open>session.get(url, timeout=TIMEOUT, allow_redirects=True)\<close> followed by
    \<^verbatim>\<open>raise_for_status()\<close>; it yields \<^verbatim>\<open>response.text\<close> or the exception raised, and the
    session after the call;
  \<^item> \<open>make_soup\<close>: \<^verbatim>\<open>BeautifulSoup(text, 'html.parser')\<close>;
  \<^item> \<open>select\<close>, \<open>select_one\<close>: \<^verbatim>\<open>soup.select(sel)\<close> and \<^verbatim>\<open>container.select_one(sel)\<close>, which
    raise on an argument that is no valid selector;
  \<^item> \<open>text_nodes\<close>: the text strings below an element, in document order, as
    \<^verbatim>\<open>get_text\<close> visits them;
  \<^item> \<open>attr_get\<close>: the lookup \<^verbatim>\<open>element.attrs\<close> does for \<^verbatim>\<open>element.get(key, default)\<close>
    (a \<^verbatim>\<open>str\<close>, or a list of them for a multi-valued attribute);
  \<^item> \<open>str_elem\<close>: \<^verbatim>\<open>str(element)\<close>;
  \<^item> \<open>py_repr\<close>: the text \<^verbatim>\<open>str\<close> gives for a float, a list or a dict;
  \<^item> \<open>loads\<close>: \<^verbatim>\<open>json.loads\<close>.
\<close>

record ('s, 'd, 'e) env =
  fetch :: "'s \<Rightarrow> pyval \<Rightarrow> (exn + string) \<times> 's"
  make_soup :: "string \<Rightarrow> exn + 'd"
  select :: "'d \<Rightarrow> pyval \<Rightarrow> exn + 'e list"
  select_one :: "'e \<Rightarrow> pyval \<Rightarrow> exn + 'e option"
  text_nodes :: "'e \<Rightarrow> string list"
  attr_get :: "'e \<Rightarrow> pyval \<Rightarrow> exn + pyval option"
  str_elem :: "'e \<Rightarrow> string"
  py_repr :: "pyval \<Rightarrow> string"
  loads :: "string \<Rightarrow> exn + pyval"

text \<open>The calls made to the collaborators, in order.\<close>

datatype call = Fetch pyval | MakeSoup string | ExtractItems

section \<open>Dynamic typing\<close>

fun type_name :: "pyval \<Rightarrow> string" where
  "type_name PNone = ''NoneType''"
| "type_name (PBool _) = ''bool''"
| "type_name (PInt _) = ''int''"
| "type_name (PFloat _) = ''float''"
| "type_name (PStr _) = ''str''"
| "type_name (PList _) = ''list''"
| "type_name (PDict _) = ''dict''"

text \<open>The \<^verbatim>\<open>AttributeError\<close> of \<^verbatim>\<open>x.get\<close> on an object that is no dict.\<close>

definition no_get :: "pyval \<Rightarrow> exn" where
  "no_get v = OtherException ([CHR 39] @ type_name v @ [CHR 39] @ '' object has no attribute ''
                 @ [CHR 39] @ ''get'' @ [CHR 39])"

text \<open>\<^verbatim>\<open>count < target_count\<close> for an int \<open>count\<close>: defined on numbers, a \<^verbatim>\<open>TypeError\<close> elsewhere.\<close>

fun int_lt :: "int \<Rightarrow> pyval \<Rightarrow> exn + bool" where
  "int_lt c (PInt t) = Inr (c < t)"
| "int_lt c (PBool b) = Inr (c < (if b then 1 else 0))"
| "int_lt c (PFloat (Finite q)) = Inr (of_int c < q)"
| "int_lt c (PFloat PosInf) = Inr True"
| "int_lt c (PFloat NegInf) = Inr False"
| "int_lt c (PFloat NaN) = Inr False"
| "int_lt c v = Inl (OtherException (''<'' @ '' not supported between instances of ''
                  @ [CHR 39] @ ''int'' @ [CHR 39] @ '' and '' @ [CHR 39] @ type_name v @ [CHR 39]))"

text \<open>\<^verbatim>\<open>str(x)\<close>, as an f-string formats a value.\<close>

fun py_str :: "('s, 'd, 'e) env \<Rightarrow> pyval \<Rightarrow> string" where
  "py_str env PNone = ''None''"
| "py_str env (PBool b) = (if b then ''True'' else ''False'')"
| "py_str env (PInt i) = str_int i"
| "py_str env (PStr s) = s"
| "py_str env v = py_repr env v"

section \<open>Item extractor\<close>

text \<open>\<^verbatim>\<open>element.get_text(strip=True)\<close>: every text string stripped, the empty ones left out, the rest joined.\<close>

definition get_text_strip :: "('s, 'd, 'e) env \<Rightarrow> 'e \<Rightarrow> string" where
  "get_text_strip env element = concat (filter (\<lambda>s. s \<noteq> []) (map strip (text_nodes env element)))"

text \<open>\<^verbatim>\<open>element.get(key, default)\<close>.\<close>

definition elem_get :: "('s, 'd, 'e) env \<Rightarrow> 'e \<Rightarrow> pyval \<Rightarrow> pyval \<Rightarrow> exn + pyval" where
  "elem_get env element key dflt =
     (case attr_get env element key of
        Inl e \<Rightarrow> Inl e
      | Inr None \<Rightarrow> Inr dflt
      | Inr (Some v) \<Rightarrow> Inr v)"

text \<open>The \<^verbatim>\<open>if attr == 'text' ... else\<close> chain of \<^verbatim>\<open>_extract_items\<close>.\<close>

definition extract_value :: "('s, 'd, 'e) env \<Rightarrow> 'e \<Rightarrow> pyval \<Rightarrow> exn + pyval" where
  "extract_value env element attr =
     (if attr = PStr ''text'' \<or> attr = PStr ''innerText'' then Inr (PStr (get_text_strip env element))
      else if attr = PStr ''href'' then elem_get env element (PStr ''href'') (PStr '''')
      else if attr = PStr ''src'' then elem_get env element (PStr ''src'') (PStr '''')
      else if attr = PStr ''innerHTML'' then Inr (PStr (str_elem env element))
      else elem_get env element attr (PStr ''''))"

definition container_keys :: "string list" where
  "container_keys = [''productContainer'', ''container'', ''product_container'']"

text \<open>
  One round of \<^verbatim>\<open>for field, selector in selectors.items()\<close>: the item after it,
  or the exception that ends the extraction.
\<close>

definition field_step :: "('s, 'd, 'e) env \<Rightarrow> 'e \<Rightarrow> pydict \<Rightarrow> string \<times> pyval \<Rightarrow> exn + pydict" where
  "field_step env container item fs =
     (case fs of (field, selector) \<Rightarrow>
        if field \<in> set container_keys then Inr item
        else
          (case (case selector of
                   PDict d \<Rightarrow> Some (dict_get d ''selector'' (PStr ''''), dict_get d ''attribute'' (PStr ''text''))
                 | PStr s \<Rightarrow> Some (PStr s, PStr ''text'')
                 | _ \<Rightarrow> None) of
             None \<Rightarrow> Inr item
           | Some (sel, attr) \<Rightarrow>
               if \<not> truthy sel then Inr item
               else
                 (case select_one env container sel of
                    Inl e \<Rightarrow> Inl e
                  | Inr None \<Rightarrow> Inr item
                  | Inr (Some element) \<Rightarrow>
                      (case extract_value env element attr of
                         Inl e \<Rightarrow> Inl e
                       | Inr v \<Rightarrow> Inr (dict_set item field v)))))"

fun fields_loop :: "('s, 'd, 'e) env \<Rightarrow> 'e \<Rightarrow> pydict \<Rightarrow> pydict \<Rightarrow> exn + pydict" where
  "fields_loop env container [] item = Inr item"
| "fields_loop env container (fs # rest) item =
     (case field_step env container item fs of
        Inl e \<Rightarrow> Inl e
      | Inr item' \<Rightarrow> fields_loop env container rest item')"

text \<open>\<^verbatim>\<open>item and any(v for v in item.values() if v)\<close>.\<close>

definition meaningful :: "pydict \<Rightarrow> bool" where
  "meaningful item = (item \<noteq> [] \<and> list_ex truthy (filter truthy (map snd item)))"

text \<open>\<^verbatim>\<open>for container in containers\<close>, with the items appended so far.\<close>

fun containers_loop :: "('s, 'd, 'e) env \<Rightarrow> 'e list \<Rightarrow> pydict \<Rightarrow> pydict list \<Rightarrow> exn + pydict list" where
  "containers_loop env [] selectors items = Inr items"
| "containers_loop env (container # rest) selectors items =
     (case fields_loop env container selectors [] of
        Inl e \<Rightarrow> Inl e
      | Inr item \<Rightarrow>
          containers_loop env rest selectors (if meaningful item then items @ [item] else items))"

text \<open>The value of \<^verbatim>\<open>container_sel\<close> after the \<^verbatim>\<open>or\<close> chain over the three keys.\<close>

definition first_container :: "pydict \<Rightarrow> pyval" where
  "first_container selectors =
     py_or (py_or (dict_get selectors ''productContainer'' PNone)
                  (dict_get selectors ''container'' PNone))
           (dict_get selectors ''product_container'' PNone)"

text \<open>The value of \<^verbatim>\<open>container_sel\<close> after the \<^verbatim>\<open>isinstance(container_sel, dict)\<close> step.\<close>

definition unwrap_container :: "pyval \<Rightarrow> pyval" where
  "unwrap_container container_sel =
     (case container_sel of
        PDict d \<Rightarrow> dict_get d ''selector'' (PStr '''')
      | _ \<Rightarrow> container_sel)"

text \<open>\<^verbatim>\<open>HttpScraper._extract_items\<close>; \<^verbatim>\<open>selectors.get\<close> raises on a value that is no dict.\<close>

definition extract_items :: "('s, 'd, 'e) env \<Rightarrow> 'd \<Rightarrow> pyval \<Rightarrow> exn + pydict list" where
  "extract_items env soup selectors =
     (case selectors of
        PDict d \<Rightarrow>
          (let container_sel = first_container d
           in if \<not> truthy container_sel then Inr []
              else
                (let container_sel = unwrap_container container_sel
                 in if \<not> truthy container_sel then Inr []
                    else
                      (case select env soup container_sel of
                         Inl e \<Rightarrow> Inl e
                       | Inr containers \<Rightarrow> containers_loop env containers d [])))
      | _ \<Rightarrow> Inl (no_get selectors))"

section \<open>Escalation classifier and scrape\<close>

text \<open>The result dict every failing branch returns, with its reason.\<close>

definition failure :: "string \<Rightarrow> pydict" where
  "failure reason =
     [(''success'', PBool False), (''items'', PList []), (''count'', PInt 0),
      (''needs_browser'', PBool True), (''reason'', PStr reason)]"

text \<open>Lines 64 to 90 of the source: the verdict from the items and the target.\<close>

definition classify :: "('s, 'd, 'e) env \<Rightarrow> pydict list \<Rightarrow> pyval \<Rightarrow> exn + pydict" where
  "classify env items target_count =
     (let count = int (length items)
      in if count = 0 then Inr (failure ''no_items_found'')
         else
           (case int_lt count target_count of
              Inl e \<Rightarrow> Inl e
            | Inr True \<Rightarrow>
                Inr [(''success'', PBool True), (''items'', PList (map PDict items)),
                     (''count'', PInt count), (''needs_browser'', PBool True),
                     (''reason'', PStr (''below_target_'' @ str_int count @ ''/''
                                        @ py_str env target_count))]
            | Inr False \<Rightarrow>
                Inr [(''success'', PBool True), (''items'', PList (map PDict items)),
                     (''count'', PInt count), (''needs_browser'', PBool False),
                     (''reason'', PNone)]))"

text \<open>The body of the \<^verbatim>\<open>try\<close> of \<^verbatim>\<open>scrape\<close>: a result or the exception raised, the session, the calls made.\<close>

definition scrape_try ::
  "('s, 'd, 'e) env \<Rightarrow> 's \<Rightarrow> pyval \<Rightarrow> pyval \<Rightarrow> pyval \<Rightarrow> (exn + pydict) \<times> 's \<times> call list" where
  "scrape_try env session url selectors target_count =
     (case fetch env session url of
        (Inl e, session') \<Rightarrow> (Inl e, session', [Fetch url])
      | (Inr text, session') \<Rightarrow>
          if is_bot_blocked text then (Inr (failure ''bot_detection''), session', [Fetch url])
          else
            (case make_soup env text of
               Inl e \<Rightarrow> (Inl e, session', [Fetch url, MakeSoup text])
             | Inr soup \<Rightarrow>
                 (case extract_items env soup selectors of
                    Inl e \<Rightarrow> (Inl e, session', [Fetch url, MakeSoup text, ExtractItems])
                  | Inr items \<Rightarrow>
                      (classify env items target_count, session',
                       [Fetch url, MakeSoup text, ExtractItems]))))"

text \<open>The three \<^verbatim>\<open>except\<close> clauses of \<^verbatim>\<open>scrape\<close>, in their order.\<close>

fun scrape_except :: "exn \<Rightarrow> pydict" where
  "scrape_except (Timeout m) = failure ''timeout''"
| "scrape_except (RequestException m) = failure (''request_error: '' @ m)"
| "scrape_except e = failure (''parse_error: '' @ exn_str e)"

text \<open>\<^verbatim>\<open>HttpScraper.scrape\<close>.\<close>

definition scrape ::
  "('s, 'd, 'e) env \<Rightarrow> 's \<Rightarrow> pyval \<Rightarrow> pyval \<Rightarrow> pyval \<Rightarrow> pydict \<times> 's \<times> call list" where
  "scrape env session url selectors target_count =
     (case scrape_try env session url selectors target_count of
        (Inl e, session', calls) \<Rightarrow> (scrape_except e, session', calls)
      | (Inr result, session', calls) \<Rightarrow> (result, session', calls))"

section \<open>Worker protocol\<close>

text \<open>What one input line of \<^verbatim>\<open>serve\<close> leads to: nothing, the end of the loop, or one printed result.\<close>

datatype action = Continue | Break | Print pydict

definition serve_line ::
  "('s, 'd, 'e) env \<Rightarrow> 's \<Rightarrow> string \<Rightarrow> action \<times> 's \<times> call list" where
  "serve_line env session line0 =
     (let line = strip line0
      in if line = [] then (Continue, session, [])
         else
           (case loads env line of
              Inl (JSONDecodeError m) \<Rightarrow> (Print (failure (''json_decode_error: '' @ m)), session, [])
            | Inl e \<Rightarrow> (Print (failure (''worker_error: '' @ exn_str e)), session, [])
            | Inr (PDict request) \<Rightarrow>
                if dict_get request ''command'' PNone = PStr ''shutdown'' then (Break, session, [])
                else
                  (let url = dict_get request ''url'' (PStr '''');
                       selectors = dict_get request ''selectors'' (PDict []);
                       target_count = dict_get request ''targetCount'' (PInt 10)
                   in if \<not> truthy url then (Print (failure ''missing_url''), session, [])
                      else
                        (case scrape env session url selectors target_count of
                           (result, session', calls) \<Rightarrow> (Print result, session', calls)))
            | Inr request \<Rightarrow>
                (Print (failure (''worker_error: '' @ exn_str (no_get request))), session, [])))"

text \<open>\<^verbatim>\<open>for line in sys.stdin\<close>: the results printed, the session and the calls made.\<close>

fun serve :: "('s, 'd, 'e) env \<Rightarrow> 's \<Rightarrow> string list \<Rightarrow> pydict list \<times> 's \<times> call list" where
  "serve env session [] = ([], session, [])"
| "serve env session (line # rest) =
     (case serve_line env session line of
        (Continue, session', calls) \<Rightarrow> serve env session' rest
      | (Break, session', calls) \<Rightarrow> ([], session', calls)
      | (Print result, session', calls) \<Rightarrow>
          (case serve env session' rest of
             (out, session'', calls') \<Rightarrow> (result # out, session'', calls @ calls')))"

text \<open>\<^verbatim>\<open>input_data[key]\<close>: a \<^verbatim>\<open>KeyError\<close> on a dict without the key, a \<^verbatim>\<open>TypeError\<close> on a value that is no dict.\<close>

fun getitem :: "pyval \<Rightarrow> string \<Rightarrow> exn + pyval" where
  "getitem (PDict d) k =
     (case map_of d k of None \<Rightarrow> Inl (KeyError ([CHR 39] @ k @ [CHR 39])) | Some v \<Rightarrow> Inr v)"
| "getitem (PList xs) k = Inl (OtherException ''list indices must be integers or slices, not str'')"
| "getitem (PStr s) k =
     Inl (OtherException (''string indices must be integers, not '' @ [CHR 39] @ ''str'' @ [CHR 39]))"
| "getitem v k =
     Inl (OtherException ([CHR 39] @ type_name v @ [CHR 39] @ '' object is not subscriptable''))"

text \<open>The body of the \<^verbatim>\<open>try\<close> of \<^verbatim>\<open>main\<close>, on \<^verbatim>\<open>sys.argv[1]\<close>.\<close>

definition main_try ::
  "('s, 'd, 'e) env \<Rightarrow> 's \<Rightarrow> string \<Rightarrow> (exn + pydict) \<times> 's \<times> call list" where
  "main_try env session arg =
     (case loads env arg of
        Inl e \<Rightarrow> (Inl e, session, [])
      | Inr input_data \<Rightarrow>
          (case getitem input_data ''url'' of
             Inl e \<Rightarrow> (Inl e, session, [])
           | Inr url \<Rightarrow>
               (case getitem input_data ''selectors'' of
                  Inl e \<Rightarrow> (Inl e, session, [])
                | Inr selectors \<Rightarrow>
                    (case input_data of
                       PDict d \<Rightarrow>
                         (case scrape env session url selectors (dict_get d ''targetCount'' (PInt 10)) of
                            (result, session', calls) \<Rightarrow> (Inr result, session', calls))
                     | _ \<Rightarrow> (Inl (no_get input_data), session, [])))))"

text \<open>The three \<^verbatim>\<open>except\<close> clauses of \<^verbatim>\<open>main\<close>; each prints a result and exits with status 1.\<close>

fun main_except :: "exn \<Rightarrow> pydict" where
  "main_except (JSONDecodeError m) = failure (''json_decode_error: '' @ m)"
| "main_except (KeyError m) = failure (''missing_key: '' @ m)"
| "main_except e = failure (''fatal_error: '' @ exn_str e)"

text \<open>
  \<^verbatim>\<open>main\<close> on \<^verbatim>\<open>sys.argv\<close> and the lines of standard input: the dicts printed and the
  exit status of the process.
\<close>

definition main ::
  "('s, 'd, 'e) env \<Rightarrow> 's \<Rightarrow> string list \<Rightarrow> string list \<Rightarrow> (pydict list \<times> int) \<times> 's \<times> call list" where
  "main env session argv stdin =
     (if length argv < 2 then
        (([[(''error'', PStr ''Usage: http_scraper.py <json_input> OR http_scraper.py --serve'')]], 1),
         session, [])
      else if argv ! 1 = ''--serve'' then
        (case serve env session stdin of (out, session', calls) \<Rightarrow> ((out, 0), session', calls))
      else
        (case main_try env session (argv ! 1) of
           (Inl e, session', calls) \<Rightarrow> (([main_except e], 1), session', calls)
         | (Inr result, session', calls) \<Rightarrow> (([result], 0), session', calls)))"

section \<open>A table-driven instance of the collaborators\<close>

text \<open>
  For concrete runs: an element carries its markup, its text strings, its attributes and,
  per selector, the first descendant that matches; a document lists, per selector, the
  elements that match. The session counts the requests sent.
\<close>

datatype elem =
  Elem (markup: string) (texts: "string list") (attrs: pydict) (found: "(string \<times> elem) list")

type_synonym doc = "(string \<times> elem list) list"

definition shop_page :: string where
  "shop_page = ''<html>'' @ replicate 500 (CHR ''.'') @ ''</html>''"

definition guarded_page :: string where
  "guarded_page = ''<html>Please complete the CAPTCHA</html>''"

definition table_fetch :: "nat \<Rightarrow> pyval \<Rightarrow> (exn + string) \<times> nat" where
  "table_fetch n url =
     (if url = PStr ''http://shop.test/'' then (Inr shop_page, Suc n)
      else if url = PStr ''http://guarded.test/'' then (Inr guarded_page, Suc n)
      else if url = PStr ''http://slow.test/'' then (Inl (Timeout ''Read timed out.''), Suc n)
      else (Inl (RequestException ''404 Client Error''), Suc n))"

definition table_select :: "doc \<Rightarrow> pyval \<Rightarrow> exn + elem list" where
  "table_select d sel =
     (case sel of
        PStr s \<Rightarrow> Inr (case map_of d s of None \<Rightarrow> [] | Some es \<Rightarrow> es)
      | _ \<Rightarrow> Inl (OtherException ''expected a selector string''))"

definition table_select_one :: "elem \<Rightarrow> pyval \<Rightarrow> exn + elem option" where
  "table_select_one e sel =
     (case sel of
        PStr s \<Rightarrow> Inr (map_of (found e) s)
      | _ \<Rightarrow> Inl (OtherException ''expected a selector string''))"

definition table_attr_get :: "elem \<Rightarrow> pyval \<Rightarrow> exn + pyval option" where
  "table_attr_get e key =
     (case key of
        PStr s \<Rightarrow> Inr (map_of (attrs e) s)
      | PList xs \<Rightarrow> Inl (OtherException ''unhashable type'')
      | PDict kvs \<Rightarrow> Inl (OtherException ''unhashable type'')
      | _ \<Rightarrow> Inr None)"

definition shop_selectors :: pydict where
  "shop_selectors =
     [(''container'', PStr ''.item''), (''name'', PStr ''.title''),
      (''price'', PDict [(''selector'', PStr ''.price''), (''attribute'', PStr ''text'')])]"

definition table_loads :: "string \<Rightarrow> exn + pyval" where
  \<open>table_loads s =
     (if s = ''[]'' then Inr (PList [])
      else if s = ''{"command": "shutdown"}'' then Inr (PDict [(''command'', PStr ''shutdown'')])
      else if s = ''{"url": "", "selectors": {}}'' then
        Inr (PDict [(''url'', PStr ''''), (''selectors'', PDict [])])
      else if s = ''{"selectors": {}}'' then Inr (PDict [(''selectors'', PDict [])])
      else if s = ''{"url": "http://slow.test/", "selectors": {}}'' then
        Inr (PDict [(''url'', PStr ''http://slow.test/''), (''selectors'', PDict [])])
      else Inl (JSONDecodeError ''Expecting value: line 1 column 1 (char 0)''))\<close>

definition table_env :: "doc \<Rightarrow> (nat, doc, elem) env" where
  "table_env d =
     \<lparr>fetch = table_fetch, make_soup = (\<lambda>text. Inr d), select = table_select,
      select_one = table_select_one, text_nodes = texts, attr_get = table_attr_get,
      str_elem = markup, py_repr = (\<lambda>v. ''...''), loads = table_loads\<rparr>"

text \<open>A product card with a title, a price and a link.\<close>

definition card_elem :: "string \<Rightarrow> string \<Rightarrow> string \<Rightarrow> elem" where
  "card_elem title price href =
     Elem ''<div>...</div>'' [title, price] []
       [(''.title'', Elem ''<h2>...</h2>'' [title] [] []),
        (''.price'', Elem ''<span>...</span>'' [price] [] []),
        (''a'', Elem ''<a>...</a>'' [] [(''href'', PStr href)] [])]"

definition shop_doc :: "elem list \<Rightarrow> doc" where
  "shop_doc cards = [(''.item'', cards)]"

section \<open>The shape of a result\<close>

text \<open>
  A result has the five keys of the response schema, in the order the source writes them,
  and its \<open>count\<close> is the length of its \<open>items\<close>.
\<close>

abbreviation five_keys :: "pydict \<Rightarrow> bool" where
  "five_keys r \<equiv>
     map fst r = [''success'', ''items'', ''count'', ''needs_browser'', ''reason'']
     \<and> (\<exists>items. map_of r ''items'' = Some (PList items)
                \<and> map_of r ''count'' = Some (PInt (int (length items))))"

section \<open>Facts about the string functions\<close>

lemma py_in_sublist: "py_in needle hay \<longleftrightarrow> sublist needle hay"
  by (induction hay) (auto simp: sublist_Cons_right)

lemma indicator_loop_ex:
  "indicator_loop inds t \<longleftrightarrow> (\<exists>ind \<in> set inds. sublist ind t)"
  by (induction inds) (auto simp: py_in_sublist)

lemma sublist_char: "sublist ind t \<Longrightarrow> c \<in> set ind \<Longrightarrow> c \<in> set t"
  using set_mono_sublist by blast

lemma ind_has_c_or_e: "ind \<in> set bot_indicators \<Longrightarrow> CHR ''c'' \<in> set ind \<or> CHR ''e'' \<in> set ind"
  unfolding bot_indicators_def by (elim disjE | simp)+

lemma lower_char_fix: "lower_char (CHR ''<'') = CHR ''<''" "lower_char (CHR ''>'') = CHR ''>''"
  "lower_char (CHR ''/'') = CHR ''/''" "lower_char (CHR ''.'') = CHR ''.''"
  "lower_char (CHR ''h'') = CHR ''h''" "lower_char (CHR ''t'') = CHR ''t''"
  "lower_char (CHR ''m'') = CHR ''m''" "lower_char (CHR ''l'') = CHR ''l''"
  by code_simp+

lemma guarded_page_blocked: "is_bot_blocked guarded_page"
  by code_simp

lemma is_bot_blocked_iff: "is_bot_blocked t \<longleftrightarrow> indicator_loop bot_indicators (lower t) \<or> length t < 500"
  by (simp add: is_bot_blocked_def Let_def)

lemma not_blocked_without_c_e:
  assumes len: "500 \<le> length t" and c: "CHR ''c'' \<notin> set (lower t)" and e: "CHR ''e'' \<notin> set (lower t)"
  shows "\<not> is_bot_blocked t"
proof -
  have no: "\<not> sublist ind (lower t)" if "ind \<in> set bot_indicators" for ind
  proof
    assume sub: "sublist ind (lower t)"
    from ind_has_c_or_e [OF that] show False
    proof
      assume "CHR ''c'' \<in> set ind"
      from sublist_char [OF sub this] c show False by (rule notE [rotated])
    next
      assume "CHR ''e'' \<in> set ind"
      from sublist_char [OF sub this] e show False by (rule notE [rotated])
    qed
  qed
  have "\<not> indicator_loop bot_indicators (lower t)"
  proof
    assume "indicator_loop bot_indicators (lower t)"
    then obtain ind where a: "ind \<in> set bot_indicators" and b: "sublist ind (lower t)"
      unfolding indicator_loop_ex ..
    from no [OF a] b show False by (rule notE)
  qed
  moreover from len have "\<not> length t < 500" by (rule leD)
  ultimately show ?thesis unfolding is_bot_blocked_iff by (rule_tac notI) (erule disjE, erule notE, assumption, erule notE, assumption)
qed

lemma shop_page_long: "500 \<le> length shop_page"
  by (simp add: shop_page_def)

lemma shop_page_lower: "lower shop_page = shop_page"
  by (simp add: shop_page_def lower_def lower_char_fix)

lemma shop_page_chars: "CHR ''c'' \<notin> set shop_page" "CHR ''e'' \<notin> set shop_page"
  by (simp_all add: shop_page_def)

lemma shop_page_not_blocked: "\<not> is_bot_blocked shop_page"
  by (rule not_blocked_without_c_e) (simp_all add: shop_page_long shop_page_lower shop_page_chars)

section \<open>Facts about the runs on the tables\<close>

lemma str_int_small: "str_int 0 = ''0''" "str_int 1 = ''1''" "str_int 2 = ''2''" "str_int 3 = ''3''" "str_int 5 = ''5''"
  by code_simp+

lemmas table_defs = table_env_def table_select_def table_select_one_def table_attr_get_def
  table_fetch_def shop_doc_def card_elem_def shop_selectors_def
lemmas extract_defs = extract_items_def field_step_def container_keys_def extract_value_def
  get_text_strip_def elem_get_def dict_get_def meaningful_def first_container_def
  unwrap_container_def py_or_def

lemma strip_samples:
  "strip ''  Widget '' = ''Widget''" "strip ''9.99'' = ''9.99''" "strip '' '' = ''''"
  "strip ''Gadget'' = ''Gadget''" "strip ''19.50'' = ''19.50''" "strip ''Gizmo'' = ''Gizmo''"
  "strip ''4.00'' = ''4.00''"
  by code_simp+

lemma scrape_extracted:
  assumes "fetch env s url = (Inr text, s')" and "\<not> is_bot_blocked text"
    and "make_soup env text = Inr soup" and "extract_items env soup selectors = Inr items"
  shows "scrape env s url selectors tc =
           ((case classify env items tc of Inl e \<Rightarrow> scrape_except e | Inr r \<Rightarrow> r), s',
            [Fetch url, MakeSoup text, ExtractItems])"
  using assms by (simp add: scrape_def scrape_try_def split: sum.splits)

lemma one_card_items:
  "extract_items (table_env d) (shop_doc [card_elem ''  Widget '' ''9.99'' ''/w'']) (PDict shop_selectors)
     = Inr [[(''name'', PStr ''Widget''), (''price'', PStr ''9.99'')]]"
  by (simp add: table_defs extract_defs strip_samples)

lemma meaningful_iff: "meaningful item \<longleftrightarrow> (\<exists>v \<in> snd ` set item. truthy v)"
  by (auto simp: meaningful_def list_ex_iff)

lemma containers_loop_filter:
  "containers_loop env cs sel acc = Inr items \<Longrightarrow>
     \<exists>cands. list_all2 (\<lambda>c item. fields_loop env c sel [] = Inr item) cs cands
           \<and> items = acc @ filter meaningful cands"
proof (induction cs arbitrary: acc)
  case Nil
  then show ?case by simp
next
  case (Cons c cs)
  from Cons.prems obtain item where
    item: "fields_loop env c sel [] = Inr item" and
    rest: "containers_loop env cs sel (if meaningful item then acc @ [item] else acc) = Inr items"
    by (auto split: sum.splits)
  from Cons.IH [OF rest] obtain cands where
    all: "list_all2 (\<lambda>c item. fields_loop env c sel [] = Inr item) cs cands" and
    eq: "items = (if meaningful item then acc @ [item] else acc) @ filter meaningful cands"
    by blast
  from item all have "list_all2 (\<lambda>c item. fields_loop env c sel [] = Inr item) (c # cs) (item # cands)"
    by simp
  moreover from eq have "items = acc @ filter meaningful (item # cands)"
    by simp
  ultimately show ?case by blast
qed

lemma strip_ends:
  assumes "strip t \<noteq> []"
  shows "\<not> is_space (hd (strip t)) \<and> \<not> is_space (last (strip t))"
proof -
  define u where "u = dropWhile is_space t"
  define w where "w = dropWhile is_space (rev u)"
  have st: "strip t = rev w" by (simp add: strip_def u_def w_def)
  with assms have w: "w \<noteq> []" by simp
  then have hw: "\<not> is_space (hd w)" unfolding w_def by (rule hd_dropWhile)
  from w have ru: "rev u \<noteq> []" unfolding w_def by auto
  then have u: "u \<noteq> []" by simp
  then have hu: "\<not> is_space (hd u)" unfolding u_def by (rule hd_dropWhile)
  obtain n where n: "w = drop n (rev u)"
    unfolding w_def using dropWhile_eq_drop by blast
  with w have "n < length (rev u)" by auto
  then have "last w = last (rev u)" unfolding n by (rule last_drop)
  also from u have "\<dots> = hd u" by (simp add: last_rev)
  finally have lw: "last w = hd u" .
  from w have "hd (strip t) = last w" "last (strip t) = hd w"
    by (simp_all add: st hd_rev last_rev)
  with hw hu lw show ?thesis by simp
qed

lemma strip_fixed:
  assumes "s \<noteq> []" and "\<not> is_space (hd s)" and "\<not> is_space (last s)"
  shows "strip s = s"
proof -
  from assms(2) have a: "dropWhile is_space s = s"
    by (simp add: dropWhile_eq_self_iff)
  from assms(1,3) have "\<not> is_space (hd (rev s))" by (simp add: hd_rev)
  then have "dropWhile is_space (rev s) = rev s"
    by (simp add: dropWhile_eq_self_iff)
  with a show ?thesis by (simp add: strip_def)
qed

lemma last_concat_pieces:
  assumes "ps \<noteq> []" and "last ps \<noteq> []"
  shows "last (concat ps) = last (last ps)"
proof -
  from assms obtain qs where "ps = qs @ [last ps]"
    by (metis append_butlast_last_id)
  then have "concat ps = concat qs @ last ps" by (metis concat.simps concat_append append_Nil2)
  with assms(2) show ?thesis by simp
qed

lemma get_text_strip_stripped: "strip (get_text_strip env el) = get_text_strip env el"
proof -
  define ps where "ps = filter (\<lambda>s. s \<noteq> []) (map strip (text_nodes env el))"
  have ends: "p \<noteq> [] \<and> \<not> is_space (hd p) \<and> \<not> is_space (last p)" if "p \<in> set ps" for p
  proof -
    from that obtain t where "p = strip t" "strip t \<noteq> []" unfolding ps_def by auto
    with strip_ends [of t] show ?thesis by simp
  qed
  show ?thesis
  proof (cases "ps = []")
    case True
    then show ?thesis by (simp add: get_text_strip_def ps_def [symmetric] strip_def)
  next
    case False
    then have h: "hd ps \<in> set ps" and l: "last ps \<in> set ps" by simp_all
    from False ends [OF h] have "hd (concat ps) = hd (hd ps)" by (simp add: hd_concat)
    moreover from False ends [OF l] have "last (concat ps) = last (last ps)"
      by (simp add: last_concat_pieces)
    moreover from False ends [OF h] have "concat ps \<noteq> []" by (cases ps) auto
    ultimately have "strip (concat ps) = concat ps"
      using ends [OF h] ends [OF l] by (intro strip_fixed) simp_all
    then show ?thesis by (simp add: get_text_strip_def ps_def [symmetric])
  qed
qed

lemma text_value_truthy:
  "truthy (PStr (get_text_strip env el)) \<longleftrightarrow> (\<exists>t \<in> set (text_nodes env el). strip t \<noteq> [])"
  by (auto simp: get_text_strip_def)

lemma dict_set_keys: "fst ` set (dict_set d k v) = insert k (fst ` set d)"
proof (induction d)
  case Nil
  show ?case by simp
next
  case (Cons kv d)
  obtain k' v' where kv: "kv = (k', v')" by (cases kv)
  show ?case
  proof (cases "k' = k")
    case True
    with kv show ?thesis by simp
  next
    case False
    with kv Cons.IH show ?thesis by (simp add: insert_commute)
  qed
qed

lemma field_step_keys:
  "field_step env c item fs = Inr item' \<Longrightarrow>
     fst ` set item' \<subseteq> fst ` set item \<union> ({fst fs} - set container_keys)"
proof (cases fs)
  case (Pair field selector)
  assume step: "field_step env c item fs = Inr item'"
  show ?thesis
  proof (cases "item' = item")
    case True
    then show ?thesis by blast
  next
    case False
    with step Pair obtain v where "item' = dict_set item field v" and "field \<notin> set container_keys"
      by (auto simp: field_step_def split: if_splits option.splits sum.splits)
    with Pair show ?thesis
      by (simp only: dict_set_keys fst_conv) blast
  qed
qed

lemma fields_loop_keys:
  "fields_loop env c sel item = Inr item' \<Longrightarrow>
     fst ` set item' \<subseteq> fst ` set item \<union> (fst ` set sel - set container_keys)"
proof (induction sel arbitrary: item)
  case Nil
  then show ?case by simp
next
  case (Cons fs sel)
  from Cons.prems obtain mid where
    step: "field_step env c item fs = Inr mid" and loop: "fields_loop env c sel mid = Inr item'"
    by (auto split: sum.splits)
  from field_step_keys [OF step] Cons.IH [OF loop] show ?case
    by (simp only: list.set image_insert) blast
qed

lemma containers_loop_keys:
  assumes "containers_loop env cs sel acc = Inr items" and "item \<in> set items"
  shows "item \<in> set acc \<or> fst ` set item \<inter> set container_keys = {}"
proof -
  from containers_loop_filter [OF assms(1)] obtain cands where
    all: "list_all2 (\<lambda>c item. fields_loop env c sel [] = Inr item) cs cands" and
    eq: "items = acc @ filter meaningful cands"
    by blast
  show ?thesis
  proof (cases "item \<in> set acc")
    case True
    then show ?thesis by simp
  next
    case False
    with eq assms(2) have "item \<in> set cands" by auto
    with all obtain c where "fields_loop env c sel [] = Inr item"
      by (auto simp: list_all2_conv_all_nth in_set_conv_nth)
    from fields_loop_keys [OF this] show ?thesis
      by (simp only: list.set image_empty) blast
  qed
qed

lemma unresolved_extract:
  assumes "(\<forall>k \<in> set container_keys. map_of d k = None)
         \<or> \<not> truthy (first_container d)
         \<or> (\<exists>cd. first_container d = PDict cd \<and> \<not> truthy (dict_get cd ''selector'' (PStr '''')))"
  shows "extract_items env soup (PDict d) = Inr []"
proof -
  from assms have "\<not> truthy (first_container d) \<or> \<not> truthy (unwrap_container (first_container d))"
    by (auto simp: container_keys_def first_container_def dict_get_def py_or_def unwrap_container_def)
  then show ?thesis
    by (auto simp: extract_items_def Let_def)
qed

lemma scrape_except_failure: "\<exists>reason. scrape_except e = failure reason"
  by (cases e) (simp_all, blast+)

lemma classify_shapes:
  "classify env items tc = Inr r \<Longrightarrow>
     r = failure ''no_items_found''
   \<or> (items \<noteq> [] \<and> r = [(''success'', PBool True), (''items'', PList (map PDict items)),
          (''count'', PInt (int (length items))), (''needs_browser'', PBool True),
          (''reason'', PStr (''below_target_'' @ str_int (int (length items)) @ ''/'' @ py_str env tc))])
   \<or> (items \<noteq> [] \<and> r = [(''success'', PBool True), (''items'', PList (map PDict items)),
          (''count'', PInt (int (length items))), (''needs_browser'', PBool False),
          (''reason'', PNone)])"
  by (auto simp: classify_def Let_def split: if_splits sum.splits bool.splits)

lemma scrape_try_shapes:
  "fst (scrape_try env s url sel tc) = Inr r \<Longrightarrow>
     (\<exists>reason. r = failure reason)
   \<or> (\<exists>items. items \<noteq> [] \<and> r = [(''success'', PBool True), (''items'', PList (map PDict items)),
          (''count'', PInt (int (length items))), (''needs_browser'', PBool True),
          (''reason'', PStr (''below_target_'' @ str_int (int (length items)) @ ''/'' @ py_str env tc))])
   \<or> (\<exists>items. items \<noteq> [] \<and> r = [(''success'', PBool True), (''items'', PList (map PDict items)),
          (''count'', PInt (int (length items))), (''needs_browser'', PBool False),
          (''reason'', PNone)])"
proof -
  assume a: "fst (scrape_try env s url sel tc) = Inr r"
  then consider (blocked) "r = failure ''bot_detection''"
    | (classified) items where "classify env items tc = Inr r"
    by (auto simp: scrape_try_def split: prod.splits sum.splits if_splits)
  then show ?thesis
  proof cases
    case blocked
    then show ?thesis by blast
  next
    case classified
    from classify_shapes [OF this] show ?thesis by blast
  qed
qed

lemma scrape_fst:
  "fst (scrape env s url sel tc) =
     (case fst (scrape_try env s url sel tc) of Inl e \<Rightarrow> scrape_except e | Inr r \<Rightarrow> r)"
  by (simp add: scrape_def split: prod.splits sum.splits)

lemma scrape_shapes:
  "(\<exists>reason. fst (scrape env s url sel tc) = failure reason)
   \<or> (\<exists>items. items \<noteq> [] \<and> fst (scrape env s url sel tc) =
         [(''success'', PBool True), (''items'', PList (map PDict items)),
          (''count'', PInt (int (length items))), (''needs_browser'', PBool True),
          (''reason'', PStr (''below_target_'' @ str_int (int (length items)) @ ''/'' @ py_str env tc))])
   \<or> (\<exists>items. items \<noteq> [] \<and> fst (scrape env s url sel tc) =
         [(''success'', PBool True), (''items'', PList (map PDict items)),
          (''count'', PInt (int (length items))), (''needs_browser'', PBool False),
          (''reason'', PNone)])"
proof (cases "fst (scrape_try env s url sel tc)")
  case (Inl e)
  with scrape_except_failure [of e] show ?thesis
    by (simp add: scrape_fst)
next
  case (Inr r)
  with scrape_try_shapes [OF Inr] show ?thesis
    by (simp add: scrape_fst)
qed


lemma five_keys_failure: "five_keys (failure reason)"
  by (simp add: failure_def)

lemma five_keys_scrape: "five_keys (fst (scrape env s url sel tc))"
  using scrape_shapes [of env s url sel tc]
  by (elim disjE exE conjE) (simp_all add: failure_def)

lemma five_keys_serve_line:
  assumes "serve_line env s line = (Print r, s', calls)"
  shows "five_keys r"
proof -
  from assms consider (fail) reason where "r = failure reason"
    | (scraped) url sel tc where "r = fst (scrape env s url sel tc)"
    by (auto simp: serve_line_def Let_def
        split: if_splits sum.splits exn.splits pyval.splits prod.splits)
       (metis fst_conv)
  then show ?thesis
  proof cases
    case fail
    then show ?thesis by (simp only: five_keys_failure)
  next
    case scraped
    then show ?thesis by (simp only: five_keys_scrape)
  qed
qed

lemma five_keys_serve:
  "r \<in> set (fst (serve env s lines)) \<Longrightarrow> five_keys r"
proof (induction lines arbitrary: s)
  case Nil
  then show ?case by simp
next
  case (Cons line lines)
  obtain a s' calls where step: "serve_line env s line = (a, s', calls)"
    by (cases "serve_line env s line") auto
  show ?case
  proof (cases a)
    case Continue
    with step Cons.prems have "r \<in> set (fst (serve env s' lines))" by simp
    then show ?thesis by (rule Cons.IH)
  next
    case Break
    with step Cons.prems show ?thesis by simp
  next
    case (Print x)
    with step Cons.prems have "r = x \<or> r \<in> set (fst (serve env s' lines))"
      by (auto split: prod.splits)
    then show ?thesis
    proof
      assume "r = x"
      with step Print have "serve_line env s line = (Print r, s', calls)" by simp
      then show ?thesis by (rule five_keys_serve_line)
    next
      assume "r \<in> set (fst (serve env s' lines))"
      then show ?thesis by (rule Cons.IH)
    qed
  qed
qed

lemma strip_lines:
  \<open>strip ''not json'' = ''not json''\<close>
  \<open>strip ''[]'' = ''[]''\<close>
  \<open>strip ''{"url": "", "selectors": {}}'' = ''{"url": "", "selectors": {}}''\<close>
  \<open>strip ''{"selectors": {}}'' = ''{"selectors": {}}''\<close>
  \<open>strip ''{"command": "shutdown"}'' = ''{"command": "shutdown"}''\<close>
  by code_simp+

lemma missing_url_line:
  assumes "strip line \<noteq> []" and "loads env (strip line) = Inr (PDict request)"
    and "dict_get request ''command'' PNone \<noteq> PStr ''shutdown''"
    and "map_of request ''url'' = Some (PStr '''') \<or> map_of request ''url'' = None"
  shows "serve_line env s line = (Print (failure ''missing_url''), s, [])"
proof -
  from assms(4) have "\<not> truthy (dict_get request ''url'' (PStr ''''))"
    by (auto simp: dict_get_def)
  with assms(1-3) show ?thesis
    by (simp add: serve_line_def Let_def)
qed

lemma main_single:
  assumes "arg \<noteq> ''--serve''"
  shows "fst (main env s (prog # arg # extra) stdin) =
           (case fst (main_try env s arg) of
              Inl e \<Rightarrow> ([main_except e], 1)
            | Inr r \<Rightarrow> ([r], 0))"
  using assms by (simp add: main_def split: prod.splits sum.splits)

lemma main_try_ok:
  assumes "loads env arg = Inr (PDict d)" and "map_of d ''url'' = Some url"
    and "map_of d ''selectors'' = Some selectors"
  shows "fst (main_try env s arg) = Inr (fst (scrape env s url selectors (dict_get d ''targetCount'' (PInt 10))))"
  using assms by (simp add: main_try_def split: prod.splits)

lemma main_try_undecodable:
  "loads env arg = Inl e \<Longrightarrow> fst (main_try env s arg) = Inl e"
  by (simp add: main_try_def)

lemma main_try_missing:
  assumes "loads env arg = Inr (PDict d)" and "map_of d ''url'' = None \<or> map_of d ''selectors'' = None"
  shows "\<exists>k. fst (main_try env s arg) = Inl (KeyError k)"
  using assms by (auto simp: main_try_def split: option.splits)

lemma getitem_no_dict:
  "\<forall>d. v \<noteq> PDict d \<Longrightarrow> \<exists>m. getitem v k = Inl (OtherException m)"
  by (cases v) auto

lemma main_try_no_dict:
  assumes "loads env arg = Inr v" and "\<forall>d. v \<noteq> PDict d"
  shows "\<exists>m. fst (main_try env s arg) = Inl (OtherException m)"
proof -
  from getitem_no_dict [OF assms(2), of "''url''"] obtain m where "getitem v ''url'' = Inl (OtherException m)"
    by blast
  with assms(1) have "fst (main_try env s arg) = Inl (OtherException m)"
    by (simp add: main_try_def)
  then show ?thesis ..
qed

lemma main_try_Inr:
  assumes "fst (main_try env s arg) = Inr r"
  shows "\<exists>d. loads env arg = Inr (PDict d) \<and> map_of d ''url'' \<noteq> None \<and> map_of d ''selectors'' \<noteq> None"
proof (cases "loads env arg")
  case (Inl e)
  with assms show ?thesis by (simp add: main_try_def)
next
  case (Inr v)
  show ?thesis
  proof (cases "\<exists>d. v = PDict d")
    case True
    then obtain d where v: "v = PDict d" ..
    show ?thesis
    proof (cases "map_of d ''url'' = None \<or> map_of d ''selectors'' = None")
      case True
      from main_try_missing [OF Inr [unfolded v] True, of s] assms show ?thesis by auto
    next
      case False
      with Inr v show ?thesis by simp
    qed
  next
    case False
    then have "\<forall>d. v \<noteq> PDict d" by simp
    from main_try_no_dict [OF Inr this, of s] assms show ?thesis by auto
  qed
qed

lemma slow_scrape:
  "fst (scrape (table_env []) 0 (PStr ''http://slow.test/'') (PDict []) (PInt 10)) = failure ''timeout''"
  by (simp add: scrape_def scrape_try_def table_env_def table_fetch_def)

section \<open>Claims\<close>

text \<open>
  C5. For every response body, the block detector answers true exactly when the
  lower-cased body contains one of the eight indicator substrings or the body is
  shorter than 500 characters; so every body shorter than 500 characters is blocked,
  whatever it contains.
\<close>

theorem C5_is_bot_blocked_iff:
  "(is_bot_blocked body \<longleftrightarrow>
      (\<exists>ind \<in> {''captcha'', ''cloudflare'', ''access denied'', ''robot check'',
                ''please verify you are human'', ''enable javascript'', ''browser check'',
                ''ddos protection''}. sublist ind (lower body))
      \<or> length body < 500)
   \<and> (length body < 500 \<longrightarrow> is_bot_blocked body)"
  by (simp add: is_bot_blocked_def indicator_loop_ex bot_indicators_def Let_def)

theorem C5_is_bot_blocked_witness:
  "length ''Access Denied'' < 500 \<and> is_bot_blocked ''Access Denied''"
proof -
  have short: "length ''Access Denied'' < 500" by simp
  with C5_is_bot_blocked_iff [of "''Access Denied''"] show ?thesis by blast
qed




text \<open>
  C2 (as amended). When the container selector resolves and the extraction returns,
  every container element gave one candidate item, and the output is, in order, the
  candidates that hold at least one non-empty (truthy) value as stored. A value read as
  \<open>text\<close> or \<open>innerText\<close> is stored trimmed: stripping it again changes nothing, and it is
  non-empty exactly when one of the element's text strings is non-empty after stripping. Attribute values and
  markup are stored and tested as they are.
\<close>

theorem C2_retained_iff_truthy_value:
  assumes "extract_items env soup (PDict d) = Inr items"
    and "truthy (first_container d)"
    and "truthy (unwrap_container (first_container d))"
    and "select env soup (unwrap_container (first_container d)) = Inr containers"
  shows "(\<exists>cands. list_all2 (\<lambda>c item. fields_loop env c d [] = Inr item) containers cands
            \<and> items = filter (\<lambda>item. \<exists>v \<in> snd ` set item. truthy v) cands)
       \<and> (\<forall>el a. a = PStr ''text'' \<or> a = PStr ''innerText'' \<longrightarrow>
            (\<exists>s. extract_value env el a = Inr (PStr s) \<and> strip s = s
                \<and> (truthy (PStr s) \<longleftrightarrow> (\<exists>t \<in> set (text_nodes env el). strip t \<noteq> []))))"
proof
  from assms have "containers_loop env containers d [] = Inr items"
    by (simp add: extract_items_def Let_def)
  from containers_loop_filter [OF this]
  show "\<exists>cands. list_all2 (\<lambda>c item. fields_loop env c d [] = Inr item) containers cands
            \<and> items = filter (\<lambda>item. \<exists>v \<in> snd ` set item. truthy v) cands"
    by (simp add: meaningful_iff [abs_def])
next
  show "\<forall>el a. a = PStr ''text'' \<or> a = PStr ''innerText'' \<longrightarrow>
            (\<exists>s. extract_value env el a = Inr (PStr s) \<and> strip s = s
                \<and> (truthy (PStr s) \<longleftrightarrow> (\<exists>t \<in> set (text_nodes env el). strip t \<noteq> [])))"
    using text_value_truthy [of env] get_text_strip_stripped [of env]
    by (auto simp: extract_value_def)
qed

text \<open>
  The card of the shop page gives one candidate, which is kept.
\<close>

theorem C2_retained_iff_truthy_value_witness:
  "\<exists>cands. list_all2 (\<lambda>c item. fields_loop (table_env []) c shop_selectors [] = Inr item)
              [card_elem ''  Widget '' ''9.99'' ''/w''] cands
         \<and> [[(''name'', PStr ''Widget''), (''price'', PStr ''9.99'')]]
             = filter (\<lambda>item. \<exists>v \<in> snd ` set item. truthy v) cands"
proof -
  let ?soup = "shop_doc [card_elem ''  Widget '' ''9.99'' ''/w'']"
  have fc: "first_container shop_selectors = PStr ''.item''"
    by (simp add: first_container_def shop_selectors_def dict_get_def py_or_def)
  have t1: "truthy (first_container shop_selectors)"
    by (simp add: fc)
  have t2: "truthy (unwrap_container (first_container shop_selectors))"
    by (simp add: fc unwrap_container_def)
  have sel: "select (table_env []) ?soup (unwrap_container (first_container shop_selectors))
               = Inr [card_elem ''  Widget '' ''9.99'' ''/w'']"
    by (simp add: fc unwrap_container_def table_env_def table_select_def shop_doc_def)
  from C2_retained_iff_truthy_value [OF one_card_items t1 t2 sel]
  show ?thesis by (rule conjunct1)
qed

text \<open>
  C2 as stated fails for an attribute value: an item whose only value is an \<open>href\<close> of
  one space, empty after trimming, is retained.
\<close>

theorem C2_blank_attribute_counterexample:
  "extract_items (table_env []) (shop_doc [card_elem ''Widget'' ''9.99'' '' ''])
     (PDict [(''container'', PStr ''.item''),
             (''link'', PDict [(''selector'', PStr ''a''), (''attribute'', PStr ''href'')])])
     = Inr [[(''link'', PStr '' '')]]
   \<and> strip '' '' = ''''"
  by (simp add: table_defs extract_defs strip_samples)

text \<open>
  C3 (as amended). The container selector is taken from the first of the keys
  \<open>productContainer\<close>, \<open>container\<close>, \<open>product_container\<close>, in this order, whose value is
  truthy; a key that is present with an empty or falsy value is passed over. None of the
  three keys is ever a field of an extracted item.
\<close>

theorem C3_first_truthy_alias:
  "first_container d =
     (if truthy (dict_get d ''productContainer'' PNone) then dict_get d ''productContainer'' PNone
      else if truthy (dict_get d ''container'' PNone) then dict_get d ''container'' PNone
      else dict_get d ''product_container'' PNone)
   \<and> (extract_items env soup (PDict d) = Inr items \<longrightarrow>
        (\<forall>item \<in> set items. \<forall>k \<in> fst ` set item.
            k \<notin> {''productContainer'', ''container'', ''product_container''}))"
proof
  show "first_container d =
     (if truthy (dict_get d ''productContainer'' PNone) then dict_get d ''productContainer'' PNone
      else if truthy (dict_get d ''container'' PNone) then dict_get d ''container'' PNone
      else dict_get d ''product_container'' PNone)"
    by (simp add: first_container_def py_or_def)
next
  show "extract_items env soup (PDict d) = Inr items \<longrightarrow>
        (\<forall>item \<in> set items. \<forall>k \<in> fst ` set item.
            k \<notin> {''productContainer'', ''container'', ''product_container''})"
  proof (intro impI ballI)
    fix item k
    assume ex: "extract_items env soup (PDict d) = Inr items"
      and it: "item \<in> set items" and k: "k \<in> fst ` set item"
    have "fst ` set item \<inter> set container_keys = {}"
    proof (cases "truthy (first_container d) \<and> truthy (unwrap_container (first_container d))")
      case True
      with ex obtain cs where "containers_loop env cs d [] = Inr items"
        by (auto simp: extract_items_def Let_def split: sum.splits)
      from containers_loop_keys [OF this it] show ?thesis by simp
    next
      case False
      with ex have "items = []"
        by (auto simp: extract_items_def Let_def split: if_splits)
      with it show ?thesis by simp
    qed
    with k have "k \<notin> set container_keys" by blast
    then show "k \<notin> {''productContainer'', ''container'', ''product_container''}"
      by (simp add: container_keys_def)
  qed
qed

text \<open>
  The shop selectors resolve through \<open>container\<close>, and the item has no container key.
\<close>

theorem C3_first_truthy_alias_witness:
  "first_container shop_selectors = PStr ''.item''
   \<and> ''container'' \<notin> fst ` set [(''name'', PStr ''Widget''), (''price'', PStr ''9.99'')]"
proof -
  note inst = C3_first_truthy_alias [of shop_selectors "table_env []"
         "shop_doc [card_elem ''  Widget '' ''9.99'' ''/w'']"
         "[[(''name'', PStr ''Widget''), (''price'', PStr ''9.99'')]]"]
  have "first_container shop_selectors = PStr ''.item''"
    using inst [THEN conjunct1] by (simp add: shop_selectors_def dict_get_def)
  moreover have "''container'' \<notin> fst ` set [(''name'', PStr ''Widget''), (''price'', PStr ''9.99'')]"
    using inst [THEN conjunct2, THEN mp, OF one_card_items] by simp
  ultimately show ?thesis by (rule conjI)
qed

text \<open>
  C3 as stated fails when the first key present holds the empty string: the selector of
  the next key is used, and an item is extracted.
\<close>

theorem C3_empty_first_alias_counterexample:
  "map_of [(''productContainer'', PStr ''''), (''container'', PStr ''.item''), (''name'', PStr ''.title'')]
      ''productContainer'' = Some (PStr '''')
   \<and> first_container
        [(''productContainer'', PStr ''''), (''container'', PStr ''.item''), (''name'', PStr ''.title'')]
       = PStr ''.item''
   \<and> extract_items (table_env []) (shop_doc [card_elem ''  Widget '' ''9.99'' ''/w''])
        (PDict [(''productContainer'', PStr ''''), (''container'', PStr ''.item''),
                (''name'', PStr ''.title'')])
       = Inr [[(''name'', PStr ''Widget'')]]"
  by (simp add: table_defs extract_defs strip_samples)

text \<open>
  C4. When the container selector does not resolve (none of the three keys present, or
  the value found falsy, or a dict whose \<open>selector\<close> is falsy), the extraction returns the
  empty list with no exception, and a request whose fetch succeeded and was not blocked
  gets the result \<open>no_items_found\<close>: no success, the browser needed, whatever the target.
\<close>

theorem C4_unresolved_container:
  assumes "(\<forall>k \<in> set container_keys. map_of d k = None)
         \<or> \<not> truthy (first_container d)
         \<or> (\<exists>cd. first_container d = PDict cd \<and> \<not> truthy (dict_get cd ''selector'' (PStr '''')))"
  shows "extract_items env soup (PDict d) = Inr []
       \<and> (fetch env s url = (Inr text, s') \<and> \<not> is_bot_blocked text \<and> make_soup env text = Inr soup \<longrightarrow>
            fst (scrape env s url (PDict d) tc)
              = [(''success'', PBool False), (''items'', PList []), (''count'', PInt 0),
                 (''needs_browser'', PBool True), (''reason'', PStr ''no_items_found'')])"
proof (intro conjI impI)
  show ex: "extract_items env soup (PDict d) = Inr []"
    by (rule unresolved_extract [OF assms])
  assume "fetch env s url = (Inr text, s') \<and> \<not> is_bot_blocked text \<and> make_soup env text = Inr soup"
  then have f: "fetch env s url = (Inr text, s')" and b: "\<not> is_bot_blocked text"
    and m: "make_soup env text = Inr soup" by simp_all
  show "fst (scrape env s url (PDict d) tc)
              = [(''success'', PBool False), (''items'', PList []), (''count'', PInt 0),
                 (''needs_browser'', PBool True), (''reason'', PStr ''no_items_found'')]"
    unfolding scrape_extracted [OF f b m ex]
    by (simp add: classify_def failure_def)
qed

text \<open>
  A container given as a dict with an empty \<open>selector\<close>, on the shop page.
\<close>

theorem C4_unresolved_container_witness:
  "extract_items (table_env (shop_doc [card_elem ''  Widget '' ''9.99'' ''/w'']))
      (shop_doc [card_elem ''  Widget '' ''9.99'' ''/w''])
      (PDict [(''container'', PDict [(''selector'', PStr '''')]), (''name'', PStr ''.title'')]) = Inr []
   \<and> fst (scrape (table_env (shop_doc [card_elem ''  Widget '' ''9.99'' ''/w''])) 0 (PStr ''http://shop.test/'')
        (PDict [(''container'', PDict [(''selector'', PStr '''')]), (''name'', PStr ''.title'')]) (PInt 10))
       = [(''success'', PBool False), (''items'', PList []), (''count'', PInt 0),
          (''needs_browser'', PBool True), (''reason'', PStr ''no_items_found'')]"
proof -
  let ?d = "[(''container'', PDict [(''selector'', PStr '''')]), (''name'', PStr ''.title'')]"
  let ?soup = "shop_doc [card_elem ''  Widget '' ''9.99'' ''/w'']"
  have fc: "first_container ?d = PDict [(''selector'', PStr '''')]"
    by (simp add: first_container_def dict_get_def py_or_def)
  have hyp: "(\<forall>k \<in> set container_keys. map_of ?d k = None)
         \<or> \<not> truthy (first_container ?d)
         \<or> (\<exists>cd. first_container ?d = PDict cd \<and> \<not> truthy (dict_get cd ''selector'' (PStr '''')))"
    by (simp add: fc dict_get_def)
  have f: "fetch (table_env ?soup) 0 (PStr ''http://shop.test/'') = (Inr shop_page, Suc 0)"
    by (simp add: table_env_def table_fetch_def)
  have m: "make_soup (table_env ?soup) shop_page = Inr ?soup"
    by (simp add: table_env_def)
  from C4_unresolved_container [OF hyp, of "table_env ?soup" ?soup 0 "PStr ''http://shop.test/''"
        shop_page "Suc 0" "PInt 10"] f m shop_page_not_blocked
  show ?thesis by simp
qed

text \<open>
  C6. When the fetch succeeds and the block detector fires on the raw body, the result
  is exactly the \<open>bot_detection\<close> failure, and the only call made is the fetch: the body
  is not parsed and no item is extracted, whatever the parser and the selectors are.
\<close>

theorem C6_blocked_short_circuit:
  assumes "fetch env s url = (Inr text, s')" and "is_bot_blocked text"
  shows "scrape env s url selectors tc =
           ([(''success'', PBool False), (''items'', PList []), (''count'', PInt 0),
             (''needs_browser'', PBool True), (''reason'', PStr ''bot_detection'')],
            s', [Fetch url])"
  using assms by (simp add: scrape_def scrape_try_def failure_def)

text \<open>
  The page that asks for a CAPTCHA.
\<close>

theorem C6_blocked_short_circuit_witness:
  "scrape (table_env (shop_doc [card_elem ''  Widget '' ''9.99'' ''/w''])) 0 (PStr ''http://guarded.test/'')
      (PDict shop_selectors) (PInt 1) =
           ([(''success'', PBool False), (''items'', PList []), (''count'', PInt 0),
             (''needs_browser'', PBool True), (''reason'', PStr ''bot_detection'')],
            Suc 0, [Fetch (PStr ''http://guarded.test/'')])"
proof -
  have f: "fetch (table_env (shop_doc [card_elem ''  Widget '' ''9.99'' ''/w''])) 0 (PStr ''http://guarded.test/'')
             = (Inr guarded_page, Suc 0)"
    by (simp add: table_env_def table_fetch_def)
  show ?thesis
    by (rule C6_blocked_short_circuit [OF f guarded_page_blocked])
qed



text \<open>
  C9. Every result of \<open>scrape\<close>, every result one line of the persistent loop prints
  (the results of its error branches among them) and so every result the loop prints has
  exactly the keys \<open>success\<close>, \<open>items\<close>, \<open>count\<close>, \<open>needs_browser\<close>, \<open>reason\<close>, with the
  count equal to the number of items.
\<close>

theorem C9_result_shape:
  "five_keys (fst (scrape env s url sel tc))
   \<and> (\<forall>r s' calls. serve_line env s line = (Print r, s', calls) \<longrightarrow> five_keys r)
   \<and> (\<forall>r \<in> set (fst (serve env s lines)). five_keys r)"
proof -
  have a: "five_keys (fst (scrape env s url sel tc))"
    by (rule five_keys_scrape)
  have b: "\<forall>r s' calls. serve_line env s line = (Print r, s', calls) \<longrightarrow> five_keys r"
  proof (intro allI impI)
    fix r s' calls
    assume "serve_line env s line = (Print r, s', calls)"
    then show "five_keys r" by (rule five_keys_serve_line)
  qed
  have c: "\<forall>r \<in> set (fst (serve env s lines)). five_keys r"
  proof (rule ballI)
    fix r
    assume "r \<in> set (fst (serve env s lines))"
    then show "five_keys r" by (rule five_keys_serve)
  qed
  show ?thesis by (rule conjI [OF a conjI [OF b c]])
qed

text \<open>
  A line that is no JSON: the loop prints the decode error, in that shape.
\<close>

theorem C9_result_shape_witness:
  "serve_line (table_env []) 0 ''not json''
     = (Print (failure ''json_decode_error: Expecting value: line 1 column 1 (char 0)''), 0, [])
   \<and> five_keys (failure ''json_decode_error: Expecting value: line 1 column 1 (char 0)'')"
proof -
  have sl: "serve_line (table_env []) 0 ''not json''
     = (Print (failure ''json_decode_error: Expecting value: line 1 column 1 (char 0)''), 0, [])"
    by (simp add: serve_line_def strip_lines table_env_def table_loads_def)
  from C9_result_shape [of "table_env []" 0 "PStr ''http://slow.test/''" "PDict shop_selectors" "PInt 10" "''not json''" "[]",
        THEN conjunct2, THEN conjunct1, rule_format, OF sl]
  have "five_keys (failure ''json_decode_error: Expecting value: line 1 column 1 (char 0)'')" .
  with sl show ?thesis by (rule conjI)
qed

text \<open>
  C10. In the persistent loop, a request that is not the shutdown command and whose
  \<open>url\<close> is the empty string, or is missing, gets the \<open>missing_url\<close> failure; no call is
  made and the session is untouched, and the loop goes on with the next line.
\<close>

theorem C10_empty_url_as_missing:
  assumes "strip line \<noteq> []" and "loads env (strip line) = Inr (PDict request)"
    and "dict_get request ''command'' PNone \<noteq> PStr ''shutdown''"
    and "map_of request ''url'' = Some (PStr '''') \<or> map_of request ''url'' = None"
  shows "serve_line env s line =
           (Print [(''success'', PBool False), (''items'', PList []), (''count'', PInt 0),
                   (''needs_browser'', PBool True), (''reason'', PStr ''missing_url'')], s, [])
       \<and> serve env s (line # rest) =
           (case serve env s rest of
              (out, s', calls) \<Rightarrow>
                ([(''success'', PBool False), (''items'', PList []), (''count'', PInt 0),
                  (''needs_browser'', PBool True), (''reason'', PStr ''missing_url'')] # out,
                 s', calls))"
  using missing_url_line [OF assms, of s]
  by (simp add: failure_def split: prod.splits)

text \<open>
  A request with an empty url, one without url, then the shutdown command.
\<close>

theorem C10_empty_url_as_missing_witness:
  \<open>serve (table_env []) 0 [''{"url": "", "selectors": {}}'', ''{"selectors": {}}'', ''{"command": "shutdown"}'']
     = ([[(''success'', PBool False), (''items'', PList []), (''count'', PInt 0),
          (''needs_browser'', PBool True), (''reason'', PStr ''missing_url'')],
         [(''success'', PBool False), (''items'', PList []), (''count'', PInt 0),
          (''needs_browser'', PBool True), (''reason'', PStr ''missing_url'')]], 0, [])\<close>
proof -
  have l: \<open>loads (table_env []) (strip ''{"url": "", "selectors": {}}'')
            = Inr (PDict [(''url'', PStr ''''), (''selectors'', PDict [])])\<close>
    by (simp add: strip_lines table_env_def table_loads_def)
  have n: \<open>strip ''{"url": "", "selectors": {}}'' \<noteq> []\<close>
    by (simp add: strip_lines)
  have c: "dict_get [(''url'', PStr ''''), (''selectors'', PDict [])] ''command'' PNone \<noteq> PStr ''shutdown''"
    by (simp add: dict_get_def)
  have u: "map_of [(''url'', PStr ''''), (''selectors'', PDict [])] ''url'' = Some (PStr '''')
         \<or> map_of [(''url'', PStr ''''), (''selectors'', PDict [])] ''url'' = None"
    by simp
  have l2: \<open>loads (table_env []) (strip ''{"selectors": {}}'') = Inr (PDict [(''selectors'', PDict [])])\<close>
    by (simp add: strip_lines table_env_def table_loads_def)
  have n2: \<open>strip ''{"selectors": {}}'' \<noteq> []\<close>
    by (simp add: strip_lines)
  have c2: "dict_get [(''selectors'', PDict [])] ''command'' PNone \<noteq> PStr ''shutdown''"
    by (simp add: dict_get_def)
  have u2: "map_of [(''selectors'', PDict [])] ''url'' = Some (PStr '''')
         \<or> map_of [(''selectors'', PDict [])] ''url'' = None"
    by simp
  have stop: \<open>serve (table_env []) 0 [''{"command": "shutdown"}''] = ([], 0, [])\<close>
    by (simp add: serve_line_def strip_lines table_env_def table_loads_def dict_get_def)
  from C10_empty_url_as_missing [OF n2 l2 c2 u2, of 0 \<open>[''{"command": "shutdown"}'']\<close>, THEN conjunct2]
  have two: \<open>serve (table_env []) 0 [''{"selectors": {}}'', ''{"command": "shutdown"}'']
     = ([[(''success'', PBool False), (''items'', PList []), (''count'', PInt 0),
          (''needs_browser'', PBool True), (''reason'', PStr ''missing_url'')]], 0, [])\<close>
    by (simp only: stop prod.case)
  from C10_empty_url_as_missing [OF n l c u, of 0
        \<open>[''{"selectors": {}}'', ''{"command": "shutdown"}'']\<close>, THEN conjunct2]
  show ?thesis
    by (simp only: two prod.case)
qed

text \<open>
  C8 (as amended). For a single-shot run on an argument other than \<open>--serve\<close>: the exit
  status is 0 exactly when the argument decodes to an object that has both \<open>url\<close> and
  \<open>selectors\<close>, and then the one dict printed is the result of \<open>scrape\<close>, whatever it
  reports; otherwise the status is 1: with \<open>json_decode_error\<close> when the argument is no
  JSON, with \<open>missing_key\<close> when the object lacks one of the two keys, and with
  \<open>fatal_error\<close> when the argument decodes to a value that is no object.
\<close>

theorem C8_exit_status:
  assumes "arg \<noteq> ''--serve''"
  shows "(snd (fst (main env s (prog # arg # extra) stdin)) = 0 \<longleftrightarrow>
            (\<exists>d. loads env arg = Inr (PDict d) \<and> map_of d ''url'' \<noteq> None \<and> map_of d ''selectors'' \<noteq> None))
       \<and> (snd (fst (main env s (prog # arg # extra) stdin)) = 0
          \<or> snd (fst (main env s (prog # arg # extra) stdin)) = 1)
       \<and> (\<forall>d url selectors. loads env arg = Inr (PDict d) \<and> map_of d ''url'' = Some url
              \<and> map_of d ''selectors'' = Some selectors \<longrightarrow>
            fst (main env s (prog # arg # extra) stdin) =
              ([fst (scrape env s url selectors (dict_get d ''targetCount'' (PInt 10)))], 0))
       \<and> (\<forall>m. loads env arg = Inl (JSONDecodeError m) \<longrightarrow>
            fst (main env s (prog # arg # extra) stdin) =
              ([[(''success'', PBool False), (''items'', PList []), (''count'', PInt 0),
                 (''needs_browser'', PBool True), (''reason'', PStr (''json_decode_error: '' @ m))]], 1))
       \<and> (\<forall>d. loads env arg = Inr (PDict d) \<and> (map_of d ''url'' = None \<or> map_of d ''selectors'' = None) \<longrightarrow>
            (\<exists>k. fst (main env s (prog # arg # extra) stdin) =
              ([[(''success'', PBool False), (''items'', PList []), (''count'', PInt 0),
                 (''needs_browser'', PBool True), (''reason'', PStr (''missing_key: '' @ k))]], 1)))
       \<and> (\<forall>v. loads env arg = Inr v \<and> (\<forall>d. v \<noteq> PDict d) \<longrightarrow>
            (\<exists>m. fst (main env s (prog # arg # extra) stdin) =
              ([[(''success'', PBool False), (''items'', PList []), (''count'', PInt 0),
                 (''needs_browser'', PBool True), (''reason'', PStr (''fatal_error: '' @ m))]], 1)))"
proof -
  note ms = main_single [OF assms, of env s prog extra stdin]
  have p1: "snd (fst (main env s (prog # arg # extra) stdin)) = 0 \<longleftrightarrow>
            (\<exists>d. loads env arg = Inr (PDict d) \<and> map_of d ''url'' \<noteq> None \<and> map_of d ''selectors'' \<noteq> None)"
  proof
    assume z: "snd (fst (main env s (prog # arg # extra) stdin)) = 0"
    then obtain r where "fst (main_try env s arg) = Inr r"
      unfolding ms by (cases "fst (main_try env s arg)") simp_all
    then show "\<exists>d. loads env arg = Inr (PDict d) \<and> map_of d ''url'' \<noteq> None \<and> map_of d ''selectors'' \<noteq> None"
      by (rule main_try_Inr)
  next
    assume "\<exists>d. loads env arg = Inr (PDict d) \<and> map_of d ''url'' \<noteq> None \<and> map_of d ''selectors'' \<noteq> None"
    then obtain d url selectors where "loads env arg = Inr (PDict d)" "map_of d ''url'' = Some url"
      "map_of d ''selectors'' = Some selectors" by auto
    from main_try_ok [OF this, of s] show "snd (fst (main env s (prog # arg # extra) stdin)) = 0"
      unfolding ms by simp
  qed
  have p2: "snd (fst (main env s (prog # arg # extra) stdin)) = 0
          \<or> snd (fst (main env s (prog # arg # extra) stdin)) = 1"
    unfolding ms by (cases "fst (main_try env s arg)") simp_all
  have p3: "\<forall>d url selectors. loads env arg = Inr (PDict d) \<and> map_of d ''url'' = Some url
              \<and> map_of d ''selectors'' = Some selectors \<longrightarrow>
            fst (main env s (prog # arg # extra) stdin) =
              ([fst (scrape env s url selectors (dict_get d ''targetCount'' (PInt 10)))], 0)"
    unfolding ms by (simp add: main_try_ok)
  have p4: "\<forall>m. loads env arg = Inl (JSONDecodeError m) \<longrightarrow>
            fst (main env s (prog # arg # extra) stdin) =
              ([[(''success'', PBool False), (''items'', PList []), (''count'', PInt 0),
                 (''needs_browser'', PBool True), (''reason'', PStr (''json_decode_error: '' @ m))]], 1)"
    unfolding ms by (simp add: main_try_undecodable failure_def)
  have p5: "\<forall>d. loads env arg = Inr (PDict d) \<and> (map_of d ''url'' = None \<or> map_of d ''selectors'' = None) \<longrightarrow>
            (\<exists>k. fst (main env s (prog # arg # extra) stdin) =
              ([[(''success'', PBool False), (''items'', PList []), (''count'', PInt 0),
                 (''needs_browser'', PBool True), (''reason'', PStr (''missing_key: '' @ k))]], 1))"
  proof (intro allI impI)
    fix d
    assume h: "loads env arg = Inr (PDict d) \<and> (map_of d ''url'' = None \<or> map_of d ''selectors'' = None)"
    have "\<exists>k. fst (main_try env s arg) = Inl (KeyError k)"
      by (rule main_try_missing [OF h [THEN conjunct1] h [THEN conjunct2]])
    then obtain k where "fst (main_try env s arg) = Inl (KeyError k)" ..
    then have "fst (main env s (prog # arg # extra) stdin) =
              ([[(''success'', PBool False), (''items'', PList []), (''count'', PInt 0),
                 (''needs_browser'', PBool True), (''reason'', PStr (''missing_key: '' @ k))]], 1)"
      unfolding ms by (simp add: failure_def)
    then show "\<exists>k. fst (main env s (prog # arg # extra) stdin) =
              ([[(''success'', PBool False), (''items'', PList []), (''count'', PInt 0),
                 (''needs_browser'', PBool True), (''reason'', PStr (''missing_key: '' @ k))]], 1)" ..
  qed
  have p6: "\<forall>v. loads env arg = Inr v \<and> (\<forall>d. v \<noteq> PDict d) \<longrightarrow>
            (\<exists>m. fst (main env s (prog # arg # extra) stdin) =
              ([[(''success'', PBool False), (''items'', PList []), (''count'', PInt 0),
                 (''needs_browser'', PBool True), (''reason'', PStr (''fatal_error: '' @ m))]], 1))"
  proof (intro allI impI)
    fix v
    assume h: "loads env arg = Inr v \<and> (\<forall>d. v \<noteq> PDict d)"
    have "\<exists>m. fst (main_try env s arg) = Inl (OtherException m)"
      by (rule main_try_no_dict [OF h [THEN conjunct1] h [THEN conjunct2]])
    then obtain m where "fst (main_try env s arg) = Inl (OtherException m)" ..
    then have "fst (main env s (prog # arg # extra) stdin) =
              ([[(''success'', PBool False), (''items'', PList []), (''count'', PInt 0),
                 (''needs_browser'', PBool True), (''reason'', PStr (''fatal_error: '' @ m))]], 1)"
      unfolding ms by (simp add: failure_def)
    then show "\<exists>m. fst (main env s (prog # arg # extra) stdin) =
              ([[(''success'', PBool False), (''items'', PList []), (''count'', PInt 0),
                 (''needs_browser'', PBool True), (''reason'', PStr (''fatal_error: '' @ m))]], 1)" ..
  qed
  show ?thesis
    by (rule conjI [OF p1 conjI [OF p2 conjI [OF p3 conjI [OF p4 conjI [OF p5 p6]]]]])
qed

text \<open>
  A request whose fetch times out: the failure is printed and the status is 0.
\<close>

theorem C8_exit_status_witness:
  \<open>fst (main (table_env []) 0 [''http_scraper.py'', ''{"url": "http://slow.test/", "selectors": {}}''] [])
     = ([[(''success'', PBool False), (''items'', PList []), (''count'', PInt 0),
          (''needs_browser'', PBool True), (''reason'', PStr ''timeout'')]], 0)\<close>
proof -
  have ns: \<open>''{"url": "http://slow.test/", "selectors": {}}'' \<noteq> ''--serve''\<close>
    by simp
  have l: \<open>loads (table_env []) ''{"url": "http://slow.test/", "selectors": {}}''
            = Inr (PDict [(''url'', PStr ''http://slow.test/''), (''selectors'', PDict [])])
          \<and> map_of [(''url'', PStr ''http://slow.test/''), (''selectors'', PDict [])] ''url''
            = Some (PStr ''http://slow.test/'')
          \<and> map_of [(''url'', PStr ''http://slow.test/''), (''selectors'', PDict [])] ''selectors''
            = Some (PDict [])\<close>
    by (simp add: table_env_def table_loads_def)
  from C8_exit_status [OF ns, of "table_env []" 0 "''http_scraper.py''" "[]" "[]",
        THEN conjunct2, THEN conjunct2, THEN conjunct1, rule_format, OF l]
  show ?thesis
    by (simp add: slow_scrape failure_def dict_get_def)
qed

text \<open>
  C8 as stated fails on the argument \<open>[]\<close>: it is valid JSON, no key lookup fails with
  a \<open>KeyError\<close>, and the status is 1.
\<close>

theorem C8_non_object_counterexample:
  "loads (table_env []) ''[]'' = Inr (PList [])
   \<and> main (table_env []) 0 [''http_scraper.py'', ''[]''] []
       = (([[(''success'', PBool False), (''items'', PList []), (''count'', PInt 0),
             (''needs_browser'', PBool True),
             (''reason'', PStr ''fatal_error: list indices must be integers or slices, not str'')]], 1),
          0, [])"
  by (simp add: main_def main_try_def table_env_def table_loads_def failure_def)

end
